theory Spec2Isabelle
  imports Main "HOL-Library.Word" "HOL-Library.Sublist"
begin

section \<open>Port-forward connection adapter: data model\<close>

text \<open>
  The Go package wraps one upgraded SPDY session and two of its sub-streams (data, error)
  as a \<^verbatim>\<open>net.Conn\<close>.  The session, the streams, the clock and the context belong to
  external collaborators; every call the package makes on them is appended to a trace, and
  what they answer is an explicit argument of the operation that makes the call.
\<close>

subsection \<open>Go error values\<close>

text \<open>
  A Go \<^verbatim>\<open>error\<close> is an interface value: \<^verbatim>\<open>nil\<close> or an error object.  The objects are
  \<^verbatim>\<open>New m\<close> (an error with message \<open>m\<close>, as produced by \<^verbatim>\<open>fmt.Errorf\<close> with a
  \<^verbatim>\<open>%s\<close> verb or by an external collaborator), \<^verbatim>\<open>Wrap p e\<close> (\<^verbatim>\<open>fmt.Errorf(p + "%w", e)\<close>)
  and \<^verbatim>\<open>joinError es\<close> (the result of \<^verbatim>\<open>errors.Join\<close>).
\<close>

datatype error = New string | Wrap string error | joinError "error list"

type_synonym goerr = "error option"

text \<open>\<^verbatim>\<open>errors.Join\<close> drops the nil values and returns nil when nothing is left.\<close>

definition errors_Join :: "goerr list \<Rightarrow> goerr" where
  "errors_Join errs =
     (case List.map_filter (\<lambda>e. e) errs of
        [] \<Rightarrow> None
      | e # es \<Rightarrow> Some (joinError (e # es)))"

subsection \<open>Handles, headers and the trace of external calls\<close>

type_synonym connection = nat
type_synonym stream = nat

record Pod =
  Namespace :: string
  Name :: string

datatype header_key = StreamType | PortHeader | PortForwardRequestIDHeader

type_synonym Header = "(header_key \<times> string) list"

text \<open>\<^verbatim>\<open>http.Header.Set\<close>: the value of the key is replaced, or the key is added.\<close>

fun Header_Set :: "Header \<Rightarrow> header_key \<Rightarrow> string \<Rightarrow> Header" where
  "Header_Set [] k v = [(k, v)]"
| "Header_Set ((k', v') # h) k v =
     (if k' = k then (k, v) # h else (k', v') # Header_Set h k v)"

text \<open>
  Modelled from the spec: the two stream roles carried by the stream-type header
  (the constants \<^verbatim>\<open>v1.StreamTypeError\<close> and \<^verbatim>\<open>v1.StreamTypeData\<close> of the Kubernetes API).
\<close>

definition StreamTypeError :: string where "StreamTypeError = ''error''"
definition StreamTypeData :: string where "StreamTypeData = ''data''"

datatype call =
    Dial Pod
  | CreateStream connection Header
  | StreamClose stream
  | StreamRead stream nat
  | StreamWrite stream string
  | RemoveStreams connection "stream list"
  | ConnClose connection
  | SetIdleTimeout connection int
  | Recv goerr
  | Go_watchErr

subsection \<open>The error watcher and the error-delivery channel\<close>

text \<open>
  \<^verbatim>\<open>errch\<close> is made by \<^verbatim>\<open>make(chan error)\<close>: an unbuffered channel.  Its only sender is
  the goroutine running \<^verbatim>\<open>watchErr\<close>, and every receive in the package is a
  \<^verbatim>\<open>select\<close> with a \<^verbatim>\<open>default\<close> branch, which never waits.  So the channel holds a value
  exactly while the watcher is parked in one of its two \<^verbatim>\<open>select\<close> statements, and the
  state of the channel is the program point of the watcher:

  \<^item> \<open>NotStarted\<close>: the goroutine has not been spawned;
  \<^item> \<open>InReadAll\<close>: blocked in \<^verbatim>\<open>io.ReadAll(f.err)\<close>;
  \<^item> \<open>AtIfErr bs e\<close>: \<^verbatim>\<open>ReadAll\<close> has returned \<open>(bs, e)\<close>, about to test \<^verbatim>\<open>err != nil\<close>;
  \<^item> \<open>InSelect1 v bs\<close>: parked in the first \<^verbatim>\<open>select\<close>, offering \<open>v\<close> on the channel;
  \<^item> \<open>AtIfLen bs\<close>: about to test \<^verbatim>\<open>len(bs) > 0\<close>;
  \<^item> \<open>InSelect2 v\<close>: parked in the second \<^verbatim>\<open>select\<close>, offering \<open>v\<close>;
  \<^item> \<open>Returned\<close>: the goroutine has ended.
\<close>

datatype watcher =
    NotStarted
  | InReadAll
  | AtIfErr string goerr
  | InSelect1 goerr string
  | AtIfLen string
  | InSelect2 goerr
  | Returned

text \<open>
  The state shared by the adapter, its watcher and the outside: the trace of calls made so
  far, the watcher, whether the context passed to \<^verbatim>\<open>Forward\<close> is cancelled, the reading of
  the clock (nanoseconds), and what \<^verbatim>\<open>io.ReadAll\<close> on the error stream is going to return
  (the bytes the remote side wrote there, and the I/O error that ended the read, if any).
\<close>

record sys =
  trace :: "call list"
  watcher :: watcher
  ctx_done :: bool
  clock :: int
  errStream :: "string \<times> goerr"

text \<open>The value a receive would get now, if any.\<close>

definition errch_offer :: "sys \<Rightarrow> goerr option" where
  "errch_offer s =
     (case watcher s of
        InSelect1 v bs \<Rightarrow> Some v
      | InSelect2 v \<Rightarrow> Some v
      | _ \<Rightarrow> None)"

text \<open>
  \<^verbatim>\<open>select { case err := <-f.errch: ... default: }\<close>: when the watcher is parked in a send,
  the value is handed over and the watcher resumes after its \<^verbatim>\<open>select\<close>; otherwise the
  \<^verbatim>\<open>default\<close> branch runs.
\<close>

definition errch_tryrecv :: "sys \<Rightarrow> goerr option \<times> sys" where
  "errch_tryrecv s =
     (case watcher s of
        InSelect1 v bs \<Rightarrow> (Some v, s\<lparr>trace := trace s @ [Recv v], watcher := AtIfLen bs\<rparr>)
      | InSelect2 v \<Rightarrow> (Some v, s\<lparr>trace := trace s @ [Recv v], watcher := Returned\<rparr>)
      | _ \<Rightarrow> (None, s))"

text \<open>\<^verbatim>\<open>io.ReadAll(f.err)\<close> returns in the watcher.\<close>

definition ReadAll_returns :: "sys \<Rightarrow> sys" where
  "ReadAll_returns s =
     (case watcher s of
        InReadAll \<Rightarrow> s\<lparr>watcher := AtIfErr (fst (errStream s)) (snd (errStream s))\<rparr>
      | _ \<Rightarrow> s)"

text \<open>
  The watcher runs from one of its two tests to its next stop.  When it enters a
  \<^verbatim>\<open>select\<close>, no receiver is waiting (receivers never wait), so the send cannot complete at
  once: if the context is already cancelled the \<^verbatim>\<open><-ctx.Done()\<close> case is taken and the
  error is dropped, otherwise the goroutine parks.  There is no \<^verbatim>\<open>return\<close> and no
  \<^verbatim>\<open>else\<close> between the two tests.
\<close>

definition watchErr :: "sys \<Rightarrow> sys" where
  "watchErr s =
     (case watcher s of
        AtIfErr bs e \<Rightarrow>
          (case e of
             Some x \<Rightarrow>
               (if ctx_done s then s\<lparr>watcher := AtIfLen bs\<rparr>
                else s\<lparr>watcher :=
                  InSelect1 (Some (Wrap ''error while reading error stream: '' x)) bs\<rparr>)
           | None \<Rightarrow> s\<lparr>watcher := AtIfLen bs\<rparr>)
      | AtIfLen bs \<Rightarrow>
          (if length bs > 0 then
             (if ctx_done s then s\<lparr>watcher := Returned\<rparr>
              else s\<lparr>watcher :=
                InSelect2 (Some (New (''error returned from apiserver: '' @ bs)))\<rparr>)
           else s\<lparr>watcher := Returned\<rparr>)
      | _ \<Rightarrow> s)"

text \<open>The context is cancelled: a parked watcher wakes up in its \<^verbatim>\<open><-ctx.Done()\<close> case.\<close>

definition ctx_cancel :: "sys \<Rightarrow> sys" where
  "ctx_cancel s =
     (case watcher s of
        InSelect1 v bs \<Rightarrow> s\<lparr>ctx_done := True, watcher := AtIfLen bs\<rparr>
      | InSelect2 v \<Rightarrow> s\<lparr>ctx_done := True, watcher := Returned\<rparr>
      | _ \<Rightarrow> s\<lparr>ctx_done := True\<rparr>)"

text \<open>
  The errors the watcher tries to send, in order, after \<^verbatim>\<open>ReadAll\<close> returned \<open>(bs, e)\<close>.
\<close>

definition watchErr_sends :: "string \<times> goerr \<Rightarrow> goerr list" where
  "watchErr_sends r =
     (case snd r of
        Some x \<Rightarrow> [Some (Wrap ''error while reading error stream: '' x)]
      | None \<Rightarrow> [])
     @ (if length (fst r) > 0
        then [Some (New (''error returned from apiserver: '' @ fst r))] else [])"

section \<open>The adapter\<close>

text \<open>
  \<^verbatim>\<open>fwdConn\<close> (exported as \<^verbatim>\<open>FwdConn\<close> where \<^verbatim>\<open>Forward\<close> and the HTTP helpers
  use it): the session \<open>fwd\<close>, the two streams, the target port and the pod.  The
  channel \<^verbatim>\<open>errch\<close> is shared with the watcher and lives in \<open>sys\<close>.
\<close>

record fwdConn =
  fwd :: connection
  data :: stream
  err :: stream
  port :: string
  pod :: Pod

subsection \<open>Calls on the external streams and session\<close>

text \<open>
  Each call is logged; its result is the argument \<open>r\<close>, chosen by the outside.
\<close>

definition stream_Read :: "stream \<Rightarrow> nat \<Rightarrow> nat \<times> goerr \<Rightarrow> sys \<Rightarrow> (nat \<times> goerr) \<times> sys" where
  "stream_Read st b r s = (r, s\<lparr>trace := trace s @ [StreamRead st b]\<rparr>)"

definition stream_Write :: "stream \<Rightarrow> string \<Rightarrow> nat \<times> goerr \<Rightarrow> sys \<Rightarrow> (nat \<times> goerr) \<times> sys" where
  "stream_Write st b r s = (r, s\<lparr>trace := trace s @ [StreamWrite st b]\<rparr>)"

definition stream_Close :: "stream \<Rightarrow> goerr \<Rightarrow> sys \<Rightarrow> goerr \<times> sys" where
  "stream_Close st r s = (r, s\<lparr>trace := trace s @ [StreamClose st]\<rparr>)"

definition conn_RemoveStreams :: "connection \<Rightarrow> stream list \<Rightarrow> sys \<Rightarrow> sys" where
  "conn_RemoveStreams c sts s = s\<lparr>trace := trace s @ [RemoveStreams c sts]\<rparr>"

definition conn_Close :: "connection \<Rightarrow> goerr \<Rightarrow> sys \<Rightarrow> goerr \<times> sys" where
  "conn_Close c r s = (r, s\<lparr>trace := trace s @ [ConnClose c]\<rparr>)"

definition conn_SetIdleTimeout :: "connection \<Rightarrow> int \<Rightarrow> sys \<Rightarrow> sys" where
  "conn_SetIdleTimeout c d s = s\<lparr>trace := trace s @ [SetIdleTimeout c d]\<rparr>"

subsection \<open>Read, Write, Close\<close>

text \<open>
  \<open>b\<close> is the length of the buffer given to \<^verbatim>\<open>Read\<close>, \<open>dr\<close> what \<^verbatim>\<open>f.data.Read(b)\<close>
  answers when it is called.
\<close>

definition Read :: "fwdConn \<Rightarrow> nat \<Rightarrow> nat \<times> goerr \<Rightarrow> sys \<Rightarrow> (nat \<times> goerr) \<times> sys" where
  "Read f b dr s =
     (case errch_tryrecv s of
        (Some e, s') \<Rightarrow> ((0, e), s')
      | (None, s') \<Rightarrow> stream_Read (data f) b dr s')"

definition Write :: "fwdConn \<Rightarrow> string \<Rightarrow> nat \<times> goerr \<Rightarrow> sys \<Rightarrow> (nat \<times> goerr) \<times> sys" where
  "Write f b dw s =
     (case errch_tryrecv s of
        (Some e, s') \<Rightarrow> ((0, e), s')
      | (None, s') \<Rightarrow> stream_Write (data f) b dw s')"

text \<open>
  \<open>dc\<close> is what \<^verbatim>\<open>f.data.Close()\<close> answers, \<open>fc\<close> what \<^verbatim>\<open>f.fwd.Close()\<close> answers.
\<close>

definition Close :: "fwdConn \<Rightarrow> goerr \<Rightarrow> goerr \<Rightarrow> sys \<Rightarrow> goerr \<times> sys" where
  "Close f dc fc s =
     (let errs0 = [];
          (got, s1) = errch_tryrecv s;
          errs1 = (case got of
                     Some e \<Rightarrow> (if e \<noteq> None then errs0 @ [e] else errs0)
                   | None \<Rightarrow> errs0);
          (e2, s2) = stream_Close (data f) dc s1;
          errs2 = (if e2 \<noteq> None then errs1 @ [e2] else errs1);
          s3 = conn_RemoveStreams (fwd f) [data f, err f] s2;
          (e4, s4) = conn_Close (fwd f) fc s3;
          errs4 = (if e4 \<noteq> None then errs2 @ [e4] else errs2)
      in (errors_Join errs4, s4))"

subsection \<open>Deadlines\<close>

text \<open>
  A \<^verbatim>\<open>time.Time\<close> is an instant in nanoseconds, a \<^verbatim>\<open>time.Duration\<close> a signed 64-bit
  count of nanoseconds.  \<^verbatim>\<open>t.Sub(u)\<close> is \<open>t - u\<close>, replaced by the largest or smallest
  duration when it does not fit; \<^verbatim>\<open>time.Until(t)\<close> is \<^verbatim>\<open>t.Sub(time.Now())\<close>.
\<close>

definition maxDuration :: int where "maxDuration = 2 ^ 63 - 1"
definition minDuration :: int where "minDuration = - (2 ^ 63)"

definition time_Sub :: "int \<Rightarrow> int \<Rightarrow> int" where
  "time_Sub t u =
     (if t - u > maxDuration then maxDuration
      else if t - u < minDuration then minDuration
      else t - u)"

definition time_Until :: "int \<Rightarrow> sys \<Rightarrow> int" where
  "time_Until t s = time_Sub t (clock s)"

definition SetDeadline :: "fwdConn \<Rightarrow> int \<Rightarrow> sys \<Rightarrow> goerr \<times> sys" where
  "SetDeadline f t s = (None, conn_SetIdleTimeout (fwd f) (time_Until t s) s)"

definition SetReadDeadline :: "fwdConn \<Rightarrow> int \<Rightarrow> sys \<Rightarrow> goerr \<times> sys" where
  "SetReadDeadline f t s = (None, conn_SetIdleTimeout (fwd f) (time_Until t s) s)"

definition SetWriteDeadline :: "fwdConn \<Rightarrow> int \<Rightarrow> sys \<Rightarrow> goerr \<times> sys" where
  "SetWriteDeadline f t s = (None, conn_SetIdleTimeout (fwd f) (time_Until t s) s)"

subsection \<open>The HTTP transport\<close>

text \<open>
  \<^verbatim>\<open>HTTPTransport\<close> builds an \<^verbatim>\<open>http.Transport\<close> whose only field set is
  \<^verbatim>\<open>DialContext\<close>.  The closure captures the pointer \<open>f\<close>; a pointer to the adapter is
  the adapter's handles, so returning \<open>f\<close> is returning the same instance.  The arguments
  are the context (here: whether it is cancelled), the network and the address.
\<close>

record Transport =
  DialContext :: "bool \<Rightarrow> string \<Rightarrow> string \<Rightarrow> fwdConn \<times> goerr"

definition HTTPTransport :: "fwdConn \<Rightarrow> Transport" where
  "HTTPTransport f = \<lparr>DialContext = (\<lambda>ctx network addr. (f, None))\<rparr>"

section \<open>The forwarder\<close>

text \<open>
  Of \<^verbatim>\<open>Forwarder\<close> only the counter matters here: \<^verbatim>\<open>reqID atomic.Int32\<close>, a signed
  32-bit integer that wraps around.  \<^verbatim>\<open>NewForwarder\<close> leaves it at its zero value.  The
  REST client, the transport and the upgrader are external.
\<close>

record Forwarder =
  reqID :: "32 word"

definition NewForwarder :: Forwarder where
  "NewForwarder = \<lparr>reqID = 0\<rparr>"

text \<open>
  \<^verbatim>\<open>fw.reqID.Add(delta)\<close> adds atomically and returns the new value.  Atomic additions
  take effect one after the other, so a run of concurrent calls is a sequence of them.
\<close>

definition reqID_Add :: "Forwarder \<Rightarrow> 32 word \<Rightarrow> 32 word \<times> Forwarder" where
  "reqID_Add fw delta = (reqID fw + delta, fw\<lparr>reqID := reqID fw + delta\<rparr>)"

text \<open>\<^verbatim>\<open>strconv.Itoa\<close>: the decimal digits, with a minus sign for a negative number.\<close>

fun digits :: "nat \<Rightarrow> string" where
  "digits n =
     (if n < 10 then [''0123456789'' ! n]
      else digits (n div 10) @ [''0123456789'' ! (n mod 10)])"

declare digits.simps [simp del]

definition Itoa :: "int \<Rightarrow> string" where
  "Itoa i = (if i < 0 then CHR ''-'' # digits (nat (- i)) else digits (nat i))"

text \<open>
  What the outside answers during one \<^verbatim>\<open>Forward\<close>: \<^verbatim>\<open>dialer.Dial\<close>, the first
  \<^verbatim>\<open>conn.CreateStream\<close>, \<^verbatim>\<open>errorStream.Close()\<close> and the second
  \<^verbatim>\<open>conn.CreateStream\<close>.
\<close>

record forward_ext =
  dial_res :: "error + connection"
  errStream_res :: "error + stream"
  errClose_res :: goerr
  dataStream_res :: "error + stream"

definition dialer_Dial :: "Pod \<Rightarrow> error + connection \<Rightarrow> sys \<Rightarrow> (error + connection) \<times> sys" where
  "dialer_Dial pd r s = (r, s\<lparr>trace := trace s @ [Dial pd]\<rparr>)"

definition conn_CreateStream ::
  "connection \<Rightarrow> Header \<Rightarrow> error + stream \<Rightarrow> sys \<Rightarrow> (error + stream) \<times> sys" where
  "conn_CreateStream c h r s = (r, s\<lparr>trace := trace s @ [CreateStream c h]\<rparr>)"

text \<open>\<^verbatim>\<open>go fc.watchErr(ctx)\<close>: the watcher starts, in its call of \<^verbatim>\<open>io.ReadAll\<close>.\<close>

definition go_watchErr :: "sys \<Rightarrow> sys" where
  "go_watchErr s = s\<lparr>trace := trace s @ [Go_watchErr], watcher := InReadAll\<rparr>"

text \<open>
  \<^verbatim>\<open>Forward\<close> returns the adapter or an error, the forwarder with its counter, and the
  new state.  The request is built from the pod's name and namespace; \<open>prt\<close> is the port.
\<close>

definition Forward ::
  "Forwarder \<Rightarrow> Pod \<Rightarrow> string \<Rightarrow> forward_ext \<Rightarrow> sys \<Rightarrow> (error + fwdConn) \<times> Forwarder \<times> sys" where
  "Forward fw pd prt x s =
     (case dialer_Dial pd (dial_res x) s of
        (Inl e, s1) \<Rightarrow> (Inl (Wrap ''error dialing for stream: '' e), fw, s1)
      | (Inr conn, s1) \<Rightarrow>
          (let h0 = [];
               h1 = Header_Set h0 StreamType StreamTypeError;
               h2 = Header_Set h1 PortHeader prt;
               (next, fw1) = reqID_Add fw 1;
               h3 = Header_Set h2 PortForwardRequestIDHeader (Itoa (sint next))
           in case conn_CreateStream conn h3 (errStream_res x) s1 of
                (Inl e, s2) \<Rightarrow> (Inl (Wrap ''error creating err stream: '' e), fw1, s2)
              | (Inr errorStream, s2) \<Rightarrow>
                  (let (ignored, s3) = stream_Close errorStream (errClose_res x) s2;
                       h4 = Header_Set h3 StreamType StreamTypeData
                   in case conn_CreateStream conn h4 (dataStream_res x) s3 of
                        (Inl e, s4) \<Rightarrow> (Inl (Wrap ''error creating data stream: '' e), fw1, s4)
                      | (Inr dataStream, s4) \<Rightarrow>
                          (let fc = \<lparr>fwd = conn, data = dataStream, err = errorStream,
                                     port = prt, pod = pd\<rparr>
                           in (Inr fc, fw1, go_watchErr s4)))))"

text \<open>
  The identifiers handed out by \<open>n\<close> executions of \<^verbatim>\<open>next := fw.reqID.Add(1)\<close>, in the
  order in which the atomic additions take effect, each read as \<^verbatim>\<open>int(next)\<close>.
\<close>

fun allocate :: "nat \<Rightarrow> Forwarder \<Rightarrow> int list" where
  "allocate 0 fw = []"
| "allocate (Suc n) fw =
     (case reqID_Add fw 1 of (next, fw1) \<Rightarrow> sint next # allocate n fw1)"

section \<open>Runs of one adapter\<close>

text \<open>
  The adapter, its watcher and the context run concurrently.  Every step below is atomic
  in Go (a channel hand-over, a cancellation, the watcher moving between two blocking
  points) or is a call made by the one user of the connection, so an execution is a
  sequence of these events.
\<close>

datatype event =
    EvReadAllReturns
  | EvWatchErr
  | EvCancel
  | EvRead nat "nat \<times> goerr"
  | EvWrite string "nat \<times> goerr"
  | EvClose goerr goerr

fun step :: "fwdConn \<Rightarrow> event \<Rightarrow> sys \<Rightarrow> sys" where
  "step f EvReadAllReturns s = ReadAll_returns s"
| "step f EvWatchErr s = watchErr s"
| "step f EvCancel s = ctx_cancel s"
| "step f (EvRead b dr) s = snd (Read f b dr s)"
| "step f (EvWrite b dw) s = snd (Write f b dw s)"
| "step f (EvClose dc fc) s = snd (Close f dc fc s)"

definition run :: "fwdConn \<Rightarrow> event list \<Rightarrow> sys \<Rightarrow> sys" where
  "run f evs s = fold (step f) evs s"

text \<open>The values handed over on the channel so far, oldest first.\<close>

fun received :: "call list \<Rightarrow> goerr list" where
  "received [] = []"
| "received (Recv v # cs) = v # received cs"
| "received (c # cs) = received cs"

text \<open>The sends the watcher still has before it, the one it is parked in first.\<close>

definition pending :: "sys \<Rightarrow> goerr list" where
  "pending s =
     (case watcher s of
        NotStarted \<Rightarrow> watchErr_sends (errStream s)
      | InReadAll \<Rightarrow> watchErr_sends (errStream s)
      | AtIfErr bs e \<Rightarrow> watchErr_sends (bs, e)
      | InSelect1 v bs \<Rightarrow> v # watchErr_sends (bs, None)
      | AtIfLen bs \<Rightarrow> watchErr_sends (bs, None)
      | InSelect2 v \<Rightarrow> [v]
      | Returned \<Rightarrow> [])"

subsection \<open>Concrete states\<close>

definition conn0 :: fwdConn where
  "conn0 = \<lparr>fwd = 0, data = 2, err = 1, port = ''80'',
            pod = \<lparr>Namespace = ''default'', Name = ''mypod''\<rparr>\<rparr>"

text \<open>Just after \<^verbatim>\<open>Forward\<close>: the watcher reads an error stream that will yield \<open>r\<close>.\<close>

definition spawned :: "string \<times> goerr \<Rightarrow> sys" where
  "spawned r = \<lparr>trace = [], watcher = InReadAll, ctx_done = False, clock = 0, errStream = r\<rparr>"

text \<open>
  The remote side wrote \<^verbatim>\<open>connection refused\<close> on the error stream and closed it; the
  watcher is parked in its second \<^verbatim>\<open>select\<close>.
\<close>

definition refused :: sys where
  "refused = watchErr (watchErr (ReadAll_returns (spawned (''connection refused'', None))))"

text \<open>The error stream broke after the remote side had written \<^verbatim>\<open>oops\<close> on it.\<close>

definition broken :: sys where
  "broken = spawned (''oops'', Some (New ''connection reset''))"

text \<open>The same, once the watcher is parked in its first \<^verbatim>\<open>select\<close>.\<close>

definition broken_parked :: sys where
  "broken_parked = watchErr (ReadAll_returns broken)"

text \<open>Before \<^verbatim>\<open>Forward\<close>: nothing has been called, no watcher runs.\<close>

definition idle :: sys where
  "idle = \<lparr>trace = [], watcher = NotStarted, ctx_done = False, clock = 0,
           errStream = ([], None)\<rparr>"

text \<open>An adapter whose clock reads 5 ns.\<close>

definition late :: sys where
  "late = \<lparr>trace = [], watcher = InReadAll, ctx_done = False, clock = 5,
           errStream = ([], None)\<rparr>"

text \<open>The session and the error stream are opened, the data stream is refused.\<close>

definition data_refused :: forward_ext where
  "data_refused = \<lparr>dial_res = Inr 0, errStream_res = Inr 1, errClose_res = None,
                   dataStream_res = Inl (New ''stream refused'')\<rparr>"

text \<open>Everything is opened.\<close>

definition all_fine :: forward_ext where
  "all_fine = \<lparr>dial_res = Inr 0, errStream_res = Inr 1, errClose_res = None,
               dataStream_res = Inr 2\<rparr>"

subsection \<open>What has been received, followed by what is still to be sent\<close>

definition history :: "sys \<Rightarrow> goerr list" where
  "history s = received (trace s) @ pending s"

section \<open>Properties\<close>

subsection \<open>The non-blocking receive\<close>

lemma errch_tryrecv_cases:
  "(\<exists>v s'. errch_offer s = Some v \<and> errch_tryrecv s = (Some v, s')
      \<and> trace s' = trace s @ [Recv v] \<and> errch_offer s' = None)
   \<or> (errch_offer s = None \<and> errch_tryrecv s = (None, s))"
  by (auto simp: errch_offer_def errch_tryrecv_def split: watcher.splits)

lemma refused_offer:
  "errch_offer refused =
     Some (Some (New ''error returned from apiserver: connection refused''))"
  by (simp add: refused_def spawned_def watchErr_def ReadAll_returns_def errch_offer_def)

lemma refused_trace: "trace refused = []"
  by (simp add: refused_def spawned_def watchErr_def ReadAll_returns_def)

subsection \<open>The HTTP transport\<close>

text \<open>
  C9.  Whatever context, network and address the HTTP client passes to the dial function
  of the transport built by \<^verbatim>\<open>HTTPTransport\<close>, the function returns the adapter the
  transport was built from, with a nil error.
\<close>

theorem HTTPTransport_returns_same_conn:
  "DialContext (HTTPTransport f) ctx network addr = (f, None)"
  by (simp add: HTTPTransport_def)

subsection \<open>Deadlines return nil, a surfaced channel error comes with count 0\<close>

text \<open>
  C10.  \<^verbatim>\<open>SetDeadline\<close>, \<^verbatim>\<open>SetReadDeadline\<close> and \<^verbatim>\<open>SetWriteDeadline\<close> return a nil
  error for every adapter, time and state; and when the channel offers a value \<open>e\<close>, a
  \<^verbatim>\<open>Read\<close> and a \<^verbatim>\<open>Write\<close> return the byte count 0 together with \<open>e\<close>.
\<close>

theorem deadlines_nil_poisoned_zero:
  "fst (SetDeadline f t s) = None \<and> fst (SetReadDeadline f t s) = None
   \<and> fst (SetWriteDeadline f t s) = None
   \<and> (errch_offer s = Some e \<longrightarrow>
        fst (Read f b dr s) = (0, e) \<and> fst (Write f bs dw s) = (0, e))"
  using errch_tryrecv_cases [of s]
  by (auto simp: SetDeadline_def SetReadDeadline_def SetWriteDeadline_def Read_def Write_def)

theorem deadlines_nil_poisoned_zero_witness:
  "errch_offer refused =
     Some (Some (New ''error returned from apiserver: connection refused''))
   \<and> fst (SetDeadline conn0 7 refused) = None
   \<and> fst (Read conn0 4 (2, None) refused) =
       (0, Some (New ''error returned from apiserver: connection refused''))
   \<and> fst (Write conn0 ''GET'' (3, None) refused) =
       (0, Some (New ''error returned from apiserver: connection refused''))"
  using refused_offer
    deadlines_nil_poisoned_zero [of conn0 7 refused
      "Some (New ''error returned from apiserver: connection refused'')"
      4 "(2, None)" "''GET''" "(3, None)"]
  by simp

subsection \<open>Close\<close>

lemma errors_Join_None:
  "errors_Join errs = None \<longleftrightarrow> (\<forall>e \<in> set errs. e = None)"
proof -
  have "List.map_filter (\<lambda>e. e) errs = [] \<longleftrightarrow> (\<forall>e \<in> set errs. e = None)"
    by (induction errs) (auto simp: List.map_filter_simps split: option.splits)
  then show ?thesis
    by (auto simp: errors_Join_def split: list.splits)
qed

lemma errors_Join_Some:
  "(\<exists>y. errors_Join errs = Some y) \<longleftrightarrow> (\<exists>e \<in> set errs. e \<noteq> None)"
  using errors_Join_None [of errs] by (cases "errors_Join errs") auto

lemma Close_trace:
  "trace (snd (Close f dc fc s)) =
     trace s @ (case errch_offer s of Some v \<Rightarrow> [Recv v] | None \<Rightarrow> [])
       @ [StreamClose (data f), RemoveStreams (fwd f) [data f, err f], ConnClose (fwd f)]"
  using errch_tryrecv_cases [of s]
  by (auto simp: Close_def stream_Close_def conn_RemoveStreams_def conn_Close_def Let_def)

lemma Close_result:
  "fst (Close f dc fc s) \<noteq> None \<longleftrightarrow>
     (\<exists>e. errch_offer s = Some (Some e)) \<or> dc \<noteq> None \<or> fc \<noteq> None"
proof -
  consider v s' where "errch_offer s = Some v" "errch_tryrecv s = (Some v, s')"
    | "errch_offer s = None" "errch_tryrecv s = (None, s)"
    using errch_tryrecv_cases [of s] by auto
  then show ?thesis
  proof cases
    case 1
    then show ?thesis
      by (cases v; cases dc; cases fc)
         (simp_all add: Close_def stream_Close_def conn_RemoveStreams_def conn_Close_def
            Let_def errors_Join_None errors_Join_Some)
  next
    case 2
    then show ?thesis
      by (cases dc; cases fc)
         (simp_all add: Close_def stream_Close_def conn_RemoveStreams_def conn_Close_def
            Let_def errors_Join_None errors_Join_Some)
  qed
qed

text \<open>
  C3.  In every state, one call of \<^verbatim>\<open>Close\<close> closes the data stream, removes both
  streams from the session and closes the session, in this order, whether or not the
  channel offered an error (which is then received first); and the error it returns is
  non-nil exactly when the channel offered a non-nil error, or closing the data stream
  failed, or closing the session failed.
\<close>

theorem Close_always_tears_down:
  "trace (snd (Close f dc fc s)) =
     trace s @ (case errch_offer s of Some v \<Rightarrow> [Recv v] | None \<Rightarrow> [])
       @ [StreamClose (data f), RemoveStreams (fwd f) [data f, err f], ConnClose (fwd f)]
   \<and> (fst (Close f dc fc s) \<noteq> None \<longleftrightarrow>
        (\<exists>e. errch_offer s = Some (Some e)) \<or> dc \<noteq> None \<or> fc \<noteq> None)"
  using Close_trace [of f dc fc s] Close_result [of f dc fc s] by blast

theorem Close_always_tears_down_witness:
  "trace (snd (Close conn0 None None refused)) =
     [Recv (Some (New ''error returned from apiserver: connection refused'')),
      StreamClose 2, RemoveStreams 0 [2, 1], ConnClose 0]
   \<and> fst (Close conn0 None None refused) \<noteq> None
   \<and> fst (Close conn0 None None (spawned ([], None))) = None
   \<and> trace (snd (Close conn0 None None (spawned ([], None)))) =
       [StreamClose 2, RemoveStreams 0 [2, 1], ConnClose 0]"
proof -
  have h0: "errch_offer (spawned ([], None)) = None"
    by (simp add: spawned_def errch_offer_def)
  have t0: "trace (spawned ([], None)) = []"
    by (simp add: spawned_def)
  show ?thesis
    using Close_always_tears_down [of conn0 None None refused]
      Close_always_tears_down [of conn0 None None "spawned ([], None)"]
    by (simp add: refused_offer refused_trace h0 t0 conn0_def)
qed

subsection \<open>Poisoning lasts for one call\<close>

text \<open>
  C1, as stated, fails.  The remote side reported \<^verbatim>\<open>connection refused\<close> and the
  channel holds the error.  The first \<^verbatim>\<open>Read\<close> returns it; the receive has taken it
  out of the channel, so the second \<^verbatim>\<open>Read\<close> calls \<^verbatim>\<open>f.data.Read\<close> and returns
  what the data stream answers.
\<close>

theorem poisoning_lost_after_first_call:
  "errch_offer refused =
     Some (Some (New ''error returned from apiserver: connection refused''))
   \<and> fst (Read conn0 4 (2, None) refused) =
       (0, Some (New ''error returned from apiserver: connection refused''))
   \<and> fst (Read conn0 4 (2, None) (snd (Read conn0 4 (2, None) refused))) = (2, None)
   \<and> trace (snd (Read conn0 4 (2, None) (snd (Read conn0 4 (2, None) refused)))) =
       [Recv (Some (New ''error returned from apiserver: connection refused'')),
        StreamRead 2 4]"
  by (simp add: refused_def spawned_def watchErr_def ReadAll_returns_def errch_offer_def
      Read_def errch_tryrecv_def stream_Read_def conn0_def)

text \<open>
  C1, amended.  When the channel holds \<open>e\<close>, the next \<^verbatim>\<open>Read\<close> or \<^verbatim>\<open>Write\<close> returns
  \<open>e\<close> with count 0, makes no call on the data stream (the only new entry of the trace
  is the receive), and leaves the channel empty.  A \<^verbatim>\<open>Read\<close> or \<^verbatim>\<open>Write\<close> made while
  the channel is empty calls the data stream and returns its answer.
\<close>

theorem poisoned_call_consumes:
  "(errch_offer s = Some e \<longrightarrow>
      fst (Read f b dr s) = (0, e)
      \<and> trace (snd (Read f b dr s)) = trace s @ [Recv e]
      \<and> errch_offer (snd (Read f b dr s)) = None
      \<and> fst (Write f bs dw s) = (0, e)
      \<and> trace (snd (Write f bs dw s)) = trace s @ [Recv e]
      \<and> errch_offer (snd (Write f bs dw s)) = None)
   \<and> (errch_offer s = None \<longrightarrow>
      Read f b dr s = (dr, s\<lparr>trace := trace s @ [StreamRead (data f) b]\<rparr>)
      \<and> Write f bs dw s = (dw, s\<lparr>trace := trace s @ [StreamWrite (data f) bs]\<rparr>))"
  using errch_tryrecv_cases [of s]
  by (auto simp: Read_def Write_def stream_Read_def stream_Write_def)

theorem poisoned_call_consumes_witness:
  "errch_offer refused =
     Some (Some (New ''error returned from apiserver: connection refused''))
   \<and> fst (Write conn0 ''GET'' (3, None) refused) =
       (0, Some (New ''error returned from apiserver: connection refused''))
   \<and> trace (snd (Write conn0 ''GET'' (3, None) refused)) =
       [Recv (Some (New ''error returned from apiserver: connection refused''))]
   \<and> errch_offer idle = None
   \<and> fst (Read conn0 4 (2, None) idle) = (2, None)
   \<and> trace (snd (Read conn0 4 (2, None) idle)) = [StreamRead 2 4]"
proof -
  have i: "errch_offer idle = None" "trace idle = []"
    by (simp_all add: idle_def errch_offer_def)
  from poisoned_call_consumes [of refused
      "Some (New ''error returned from apiserver: connection refused'')"
      conn0 4 "(2, None)" "''GET''" "(3, None)"]
    poisoned_call_consumes [of idle None conn0 4 "(2, None)" "''GET''" "(3, None)"]
  show ?thesis
    by (simp add: refused_offer refused_trace i conn0_def)
qed

subsection \<open>Deadlines are the idle timeout of the session\<close>

text \<open>
  C2, as stated, fails.  The clock reads 5 ns and the deadline is instant 0, in the past:
  the session is given the idle timeout \<open>-5\<close> ns, not 0.
\<close>

theorem deadline_not_clamped:
  "trace (snd (SetDeadline conn0 0 late)) = [SetIdleTimeout 0 (- 5)]
   \<and> trace (snd (SetDeadline conn0 0 late)) \<noteq>
       trace late @ [SetIdleTimeout (fwd conn0) (max 0 (0 - clock late))]"
  by (simp add: SetDeadline_def conn_SetIdleTimeout_def time_Until_def time_Sub_def
      maxDuration_def minDuration_def late_def conn0_def)

text \<open>
  C2, amended.  \<^verbatim>\<open>SetDeadline\<close>, \<^verbatim>\<open>SetReadDeadline\<close> and \<^verbatim>\<open>SetWriteDeadline\<close> do
  the same thing: one call of \<^verbatim>\<open>SetIdleTimeout\<close> on the session \<open>fwd f\<close>, no call on
  a stream, with the duration \<open>t - now\<close>, negative when \<open>t\<close> is in the past, and kept
  within the range of a duration.
\<close>

theorem deadline_is_session_idle_timeout:
  "SetDeadline f t s =
     (None, s\<lparr>trace := trace s @
        [SetIdleTimeout (fwd f) (max minDuration (min maxDuration (t - clock s)))]\<rparr>)
   \<and> SetReadDeadline f t s = SetDeadline f t s
   \<and> SetWriteDeadline f t s = SetDeadline f t s"
  by (simp add: SetDeadline_def SetReadDeadline_def SetWriteDeadline_def
      conn_SetIdleTimeout_def time_Until_def time_Sub_def maxDuration_def minDuration_def)

theorem deadline_is_session_idle_timeout_witness:
  "trace (snd (SetDeadline conn0 12 late)) = [SetIdleTimeout 0 7]
   \<and> trace (snd (SetReadDeadline conn0 0 late)) = [SetIdleTimeout 0 (- 5)]
   \<and> fst (SetWriteDeadline conn0 12 late) = None"
  using deadline_is_session_idle_timeout [of conn0 12 late]
    deadline_is_session_idle_timeout [of conn0 0 late]
  by (simp add: late_def conn0_def maxDuration_def minDuration_def)

subsection \<open>Forward\<close>

lemma Forward_headers:
  "Header_Set (Header_Set (Header_Set [] StreamType a) PortHeader b)
      PortForwardRequestIDHeader c
     = [(StreamType, a), (PortHeader, b), (PortForwardRequestIDHeader, c)]"
  "Header_Set [(StreamType, a), (PortHeader, b), (PortForwardRequestIDHeader, c)] StreamType d
     = [(StreamType, d), (PortHeader, b), (PortForwardRequestIDHeader, c)]"
  by simp_all

lemma Itoa_1: "Itoa 1 = ''1''"
  by (simp add: Itoa_def digits.simps [of "Suc 0"])

text \<open>
  C8.  When \<^verbatim>\<open>Forward\<close> succeeds, the calls it has made are, in this order: the dial,
  the opening of the error stream, the close of the error stream's write side, the opening
  of the data stream, the start of the watcher.  Both openings carry the stream type
  (\<^verbatim>\<open>error\<close>, then \<^verbatim>\<open>data\<close>), the port and the request identifier, the decimal
  form of the counter after its increment.
\<close>

theorem Forward_success_order:
  assumes "Forward fw pd prt x s = (Inr fc, fw', s')"
  shows "trace s' = trace s @
      [Dial pd,
       CreateStream (fwd fc) [(StreamType, StreamTypeError), (PortHeader, prt),
          (PortForwardRequestIDHeader, Itoa (sint (reqID fw + 1)))],
       StreamClose (err fc),
       CreateStream (fwd fc) [(StreamType, StreamTypeData), (PortHeader, prt),
          (PortForwardRequestIDHeader, Itoa (sint (reqID fw + 1)))],
       Go_watchErr]
    \<and> watcher s' = InReadAll \<and> port fc = prt \<and> pod fc = pd"
  using assms
  by (auto simp: Forward_def dialer_Dial_def conn_CreateStream_def stream_Close_def
      go_watchErr_def reqID_Add_def Let_def Forward_headers split: sum.splits)

theorem Forward_success_order_witness:
  "Forward NewForwarder (pod conn0) ''80'' all_fine idle =
     (Inr conn0, \<lparr>reqID = 1\<rparr>,
      idle\<lparr>trace :=
        [Dial (pod conn0),
         CreateStream 0 [(StreamType, ''error''), (PortHeader, ''80''),
           (PortForwardRequestIDHeader, ''1'')],
         StreamClose 1,
         CreateStream 0 [(StreamType, ''data''), (PortHeader, ''80''),
           (PortForwardRequestIDHeader, ''1'')],
         Go_watchErr],
        watcher := InReadAll\<rparr>)"
proof -
  obtain fc fw' s' where
    F: "Forward NewForwarder (pod conn0) ''80'' all_fine idle = (Inr fc, fw', s')"
    and fc: "fc = conn0" and fw': "fw' = \<lparr>reqID = 1\<rparr>"
    and s': "s' = idle\<lparr>trace := trace s', watcher := watcher s'\<rparr>"
    by (simp add: Forward_def dialer_Dial_def conn_CreateStream_def stream_Close_def
        go_watchErr_def reqID_Add_def Let_def all_fine_def NewForwarder_def conn0_def
        idle_def)
  from Forward_success_order [OF F]
  have "trace s' =
        [Dial (pod conn0),
         CreateStream 0 [(StreamType, ''error''), (PortHeader, ''80''),
           (PortForwardRequestIDHeader, ''1'')],
         StreamClose 1,
         CreateStream 0 [(StreamType, ''data''), (PortHeader, ''80''),
           (PortForwardRequestIDHeader, ''1'')],
         Go_watchErr]"
    and "watcher s' = InReadAll"
    by (simp_all add: fc conn0_def idle_def NewForwarder_def Itoa_1
        StreamTypeError_def StreamTypeData_def)
  with F fc fw' s' show ?thesis by simp
qed

text \<open>
  C7, as stated, fails.  The session and the error stream are opened and the data stream is
  refused.  \<^verbatim>\<open>Forward\<close> returns the wrapped error after four calls: the dial, the opening
  of the error stream, the close of its write side (made before the data stream was tried)
  and the refused opening.  The session is not closed.
\<close>

theorem Forward_leaks_session:
  "fst (Forward NewForwarder (pod conn0) ''80'' data_refused idle) =
     Inl (Wrap ''error creating data stream: '' (New ''stream refused''))
   \<and> trace (snd (snd (Forward NewForwarder (pod conn0) ''80'' data_refused idle))) =
      [Dial (pod conn0),
       CreateStream 0 [(StreamType, ''error''), (PortHeader, ''80''),
         (PortForwardRequestIDHeader, ''1'')],
       StreamClose 1,
       CreateStream 0 [(StreamType, ''data''), (PortHeader, ''80''),
         (PortForwardRequestIDHeader, ''1'')]]
   \<and> ConnClose 0 \<notin>
       set (trace (snd (snd (Forward NewForwarder (pod conn0) ''80'' data_refused idle))))"
  by (simp add: Forward_def dialer_Dial_def conn_CreateStream_def stream_Close_def
      reqID_Add_def Let_def Forward_headers data_refused_def idle_def NewForwarder_def
      StreamTypeError_def StreamTypeData_def Itoa_1)

text \<open>
  C7, amended.  When the data stream cannot be opened after the error stream was,
  \<^verbatim>\<open>Forward\<close> returns the failure wrapped as \<^verbatim>\<open>error creating data stream\<close> and no
  adapter.  The write side of the error stream was closed right after its creation;
  nothing else is closed or removed, in particular not the session, and no watcher is
  started.  The counter keeps its increment.
\<close>

theorem Forward_data_failure:
  assumes "dial_res x = Inr c" and "errStream_res x = Inr es" and "dataStream_res x = Inl e"
  shows "Forward fw pd prt x s =
     (Inl (Wrap ''error creating data stream: '' e), fw\<lparr>reqID := reqID fw + 1\<rparr>,
      s\<lparr>trace := trace s @
        [Dial pd,
         CreateStream c [(StreamType, StreamTypeError), (PortHeader, prt),
            (PortForwardRequestIDHeader, Itoa (sint (reqID fw + 1)))],
         StreamClose es,
         CreateStream c [(StreamType, StreamTypeData), (PortHeader, prt),
            (PortForwardRequestIDHeader, Itoa (sint (reqID fw + 1)))]]\<rparr>)"
  using assms
  by (simp add: Forward_def dialer_Dial_def conn_CreateStream_def stream_Close_def
      reqID_Add_def Let_def Forward_headers)

theorem Forward_data_failure_witness:
  "dial_res data_refused = Inr 0 \<and> errStream_res data_refused = Inr 1
   \<and> dataStream_res data_refused = Inl (New ''stream refused'')
   \<and> watcher (snd (snd (Forward NewForwarder (pod conn0) ''80'' data_refused idle))) =
       NotStarted
   \<and> fst (snd (Forward NewForwarder (pod conn0) ''80'' data_refused idle)) = \<lparr>reqID = 1\<rparr>
   \<and> length (trace (snd (snd (Forward NewForwarder (pod conn0) ''80'' data_refused idle))))
       = 4"
proof -
  have h: "dial_res data_refused = Inr 0" "errStream_res data_refused = Inr 1"
    "dataStream_res data_refused = Inl (New ''stream refused'')"
    by (simp_all add: data_refused_def)
  from Forward_data_failure [OF h, of NewForwarder "pod conn0" "''80''" idle]
  show ?thesis
    by (simp add: h idle_def NewForwarder_def)
qed

subsection \<open>Request identifiers\<close>

text \<open>
  A \<^verbatim>\<open>Forward\<close> whose dial succeeds performs one \<^verbatim>\<open>reqID.Add(1)\<close>; one whose dial
  fails leaves the counter alone.
\<close>

lemma Forward_counter:
  "fst (snd (Forward fw pd prt x s)) =
     (case dial_res x of Inl e \<Rightarrow> fw | Inr c \<Rightarrow> snd (reqID_Add fw 1))"
  by (auto simp: Forward_def dialer_Dial_def conn_CreateStream_def stream_Close_def
      reqID_Add_def Let_def split: sum.splits)

lemma length_allocate: "length (allocate n fw) = n"
  by (induction n arbitrary: fw) (auto simp: reqID_Add_def)

lemma allocate_nth:
  "i < n \<Longrightarrow> allocate n fw ! i = sint (reqID fw + of_nat (Suc i))"
proof (induction n arbitrary: fw i)
  case 0
  then show ?case by simp
next
  case (Suc n)
  show ?case
  proof (cases i)
    case 0
    then show ?thesis by (simp add: reqID_Add_def)
  next
    case (Suc j)
    with Suc.prems have "j < n" by simp
    from Suc.IH [OF this, of "fw\<lparr>reqID := reqID fw + 1\<rparr>"] Suc
    show ?thesis by (simp add: reqID_Add_def add.assoc)
  qed
qed

lemma sint_add_small:
  fixes r :: "32 word"
  shows "sint r + int k < 2 ^ 31 \<Longrightarrow> sint (r + of_nat k) = sint r + int k"
proof (induction k)
  case 0
  then show ?case by simp
next
  case (Suc k)
  then have ih: "sint (r + of_nat k) = sint r + int k" by simp
  have lo: "- (2 ^ 31) \<le> sint r" using sint_greater_eq [of r] by simp
  have "sint (r + of_nat (Suc k)) = sint ((r + of_nat k) + 1)"
    by (simp add: ac_simps)
  also have "\<dots> = signed_take_bit 31 (sint (r + of_nat k) + 1)"
    by (simp add: sint_word_add)
  also have "\<dots> = signed_take_bit 31 (sint r + int k + 1)" by (simp add: ih)
  also have "\<dots> = sint r + int k + 1"
    using Suc.prems lo by (intro signed_take_bit_int_eq_self) simp_all
  finally show ?case by simp
qed

text \<open>
  C6, as stated, fails.  The counter is a signed 32-bit integer.  On a new forwarder the
  first \<open>2\<^sup>3\<^sup>1 - 1\<close> identifiers are \<open>1, 2, \<dots>, 2147483647\<close>; the next addition wraps
  around and hands out \<open>-2147483648\<close>, so the identifiers of \<open>2\<^sup>3\<^sup>1\<close> calls are not
  increasing.
\<close>

theorem reqID_wraps_around:
  "allocate (2 ^ 31) NewForwarder ! (2 ^ 31 - 2) = 2147483647
   \<and> allocate (2 ^ 31) NewForwarder ! (2 ^ 31 - 1) = - 2147483648
   \<and> \<not> sorted_wrt (<) (allocate (2 ^ 31) NewForwarder)"
proof -
  have a: "allocate (2 ^ 31) NewForwarder ! (2 ^ 31 - 2) = 2147483647"
    by (subst allocate_nth) (simp_all add: NewForwarder_def)
  have b: "allocate (2 ^ 31) NewForwarder ! (2 ^ 31 - 1) = - 2147483648"
    by (subst allocate_nth) (simp_all add: NewForwarder_def)
  have "\<not> sorted_wrt (<) (allocate (2 ^ 31) NewForwarder)"
  proof
    assume "sorted_wrt (<) (allocate (2 ^ 31) NewForwarder)"
    then have "allocate (2 ^ 31) NewForwarder ! (2 ^ 31 - 2)
        < allocate (2 ^ 31) NewForwarder ! (2 ^ 31 - 1)"
      by (rule sorted_wrt_nth_less) (simp_all add: length_allocate)
    with a b show False by simp
  qed
  with a b show ?thesis by simp
qed

lemma allocate_distinct:
  assumes "n \<le> 2 ^ 32"
  shows "distinct (allocate n fw)"
proof -
  have "allocate n fw ! i \<noteq> allocate n fw ! j" if "i < j" "j < n" for i j
  proof
    assume eq: "allocate n fw ! i = allocate n fw ! j"
    from that have "i < n" by simp
    with eq that have "sint (reqID fw + of_nat (Suc i)) = sint (reqID fw + of_nat (Suc j))"
      by (simp add: allocate_nth)
    then have "reqID fw + of_nat (Suc i) = reqID fw + of_nat (Suc j)"
      by (simp only: signed_word_eqI)
    then have "(of_nat (Suc i) :: 32 word) = of_nat (Suc j)"
      by (simp only: add_left_cancel)
    then have "take_bit LENGTH(32) (Suc i) = take_bit LENGTH(32) (Suc j)"
      by (rule iffD1 [OF word_of_nat_eq_iff])
    then have "Suc i mod 2 ^ 32 = Suc j mod 2 ^ 32"
      by (simp add: take_bit_eq_mod)
    moreover have "Suc i < 2 ^ 32" using that assms by simp
    moreover have "Suc j \<le> 2 ^ 32" using that assms by simp
    ultimately show False
      using that(1) by (cases "Suc j = 2 ^ 32") (simp_all)
  qed
  then show ?thesis
    by (simp add: distinct_conv_nth length_allocate) (metis nat_neq_iff)
qed

lemma allocate_increasing:
  assumes "sint (reqID fw) + int n < 2 ^ 31"
  shows "(\<forall>i<n. allocate n fw ! i = sint (reqID fw) + int i + 1)
    \<and> sorted_wrt (<) (allocate n fw)"
proof -
  have nth: "allocate n fw ! i = sint (reqID fw) + int i + 1" if "i < n" for i
  proof -
    from that assms have "sint (reqID fw) + int (Suc i) < 2 ^ 31" by simp
    then have "sint (reqID fw + of_nat (Suc i)) = sint (reqID fw) + int (Suc i)"
      by (rule sint_add_small)
    with that show ?thesis by (simp add: allocate_nth)
  qed
  have "sorted_wrt (<) (allocate n fw)"
    unfolding sorted_wrt_iff_nth_less
    by (auto simp: length_allocate nth)
  with nth show ?thesis by simp
qed

text \<open>
  C6, amended.  The identifiers handed out by \<open>n\<close> additions, in the order of the atomic
  additions, are pairwise distinct as long as \<open>n \<le> 2\<^sup>3\<^sup>2\<close>; and as long as the counter
  does not pass \<open>2\<^sup>3\<^sup>1 - 1\<close>, that is from a counter \<open>c\<close> with \<open>c + n < 2\<^sup>3\<^sup>1\<close>, they
  are \<open>c + 1, \<dots>, c + n\<close>, strictly increasing.
\<close>

theorem reqID_increasing_until_wrap:
  "length (allocate n fw) = n
   \<and> (n \<le> 2 ^ 32 \<longrightarrow> distinct (allocate n fw))
   \<and> (sint (reqID fw) + int n < 2 ^ 31 \<longrightarrow>
        (\<forall>i<n. allocate n fw ! i = sint (reqID fw) + int i + 1)
        \<and> sorted_wrt (<) (allocate n fw))"
  using allocate_distinct [of n fw] allocate_increasing [of fw n]
  by (simp add: length_allocate)

theorem reqID_increasing_until_wrap_witness:
  "(3::nat) \<le> 2 ^ 32
   \<and> sint (reqID NewForwarder) + int 3 < 2 ^ 31
   \<and> allocate 3 NewForwarder = [1, 2, 3]
   \<and> sorted_wrt (<) (allocate 3 NewForwarder)
   \<and> distinct (allocate 3 NewForwarder)"
proof -
  have h: "sint (reqID NewForwarder) + int 3 < 2 ^ 31"
    by (simp add: NewForwarder_def)
  have v: "allocate 3 NewForwarder = [1, 2, 3]"
    by (simp add: NewForwarder_def reqID_Add_def eval_nat_numeral)
  from reqID_increasing_until_wrap [of 3 NewForwarder] h v show ?thesis by simp
qed

subsection \<open>What the watcher delivers and what the operations observe\<close>

lemma received_append: "received (cs @ ds) = received cs @ received ds"
  by (induction cs rule: received.induct) auto

lemma watchErr_sends_Some:
  "watchErr_sends (bs, Some x) =
     Some (Wrap ''error while reading error stream: '' x) # watchErr_sends (bs, None)"
  by (simp add: watchErr_sends_def)

lemma watchErr_sends_None:
  "watchErr_sends (bs, None) =
     (if length bs > 0 then [Some (New (''error returned from apiserver: '' @ bs))] else [])"
  by (simp add: watchErr_sends_def)

lemma subseq_same_prefix: "subseq xs (xs @ ys)"
  by (induction xs) auto

lemma tryrecv_history:
  "history (snd (errch_tryrecv s)) = history s \<and> errStream (snd (errch_tryrecv s)) = errStream s"
  by (auto simp: history_def errch_tryrecv_def pending_def received_append watchErr_sends_None
      split: watcher.splits)

lemma history_log:
  "received cs = [] \<Longrightarrow> history (s\<lparr>trace := trace s @ cs\<rparr>) = history s"
  by (cases "watcher s") (simp_all add: history_def pending_def received_append)

lemma Read_history:
  "history (snd (Read f b dr s)) = history s \<and> errStream (snd (Read f b dr s)) = errStream s"
proof -
  obtain r s1 where e: "errch_tryrecv s = (r, s1)" by fastforce
  then have "history s1 = history s" "errStream s1 = errStream s"
    using tryrecv_history [of s] by simp_all
  then show ?thesis
    by (cases r) (simp_all add: Read_def e stream_Read_def history_log)
qed

lemma Write_history:
  "history (snd (Write f b dw s)) = history s \<and> errStream (snd (Write f b dw s)) = errStream s"
proof -
  obtain r s1 where e: "errch_tryrecv s = (r, s1)" by fastforce
  then have "history s1 = history s" "errStream s1 = errStream s"
    using tryrecv_history [of s] by simp_all
  then show ?thesis
    by (cases r) (simp_all add: Write_def e stream_Write_def history_log)
qed

lemma Close_history:
  "history (snd (Close f dc fc s)) = history s \<and> errStream (snd (Close f dc fc s)) = errStream s"
proof -
  obtain r s1 where e: "errch_tryrecv s = (r, s1)" by fastforce
  then have "history s1 = history s" "errStream s1 = errStream s"
    using tryrecv_history [of s] by simp_all
  then show ?thesis
    by (simp add: Close_def e stream_Close_def conn_RemoveStreams_def conn_Close_def
        Let_def history_log)
qed

lemma step_history:
  "subseq (history (step f ev s)) (history s) \<and> errStream (step f ev s) = errStream s"
proof (cases ev)
  case EvReadAllReturns
  then show ?thesis
    by (cases "errStream s")
       (auto simp: history_def ReadAll_returns_def pending_def split: watcher.splits)
next
  case EvWatchErr
  then show ?thesis
    by (auto simp: history_def watchErr_def pending_def watchErr_sends_Some watchErr_sends_None
        subseq_append' split: watcher.splits option.splits)
next
  case EvCancel
  then show ?thesis
    by (auto simp: history_def ctx_cancel_def pending_def watchErr_sends_None
        subseq_append' split: watcher.splits)
next
  case (EvRead b dr)
  then show ?thesis by (simp add: Read_history)
next
  case (EvWrite b dw)
  then show ?thesis by (simp add: Write_history)
next
  case (EvClose dc fc)
  then show ?thesis by (simp add: Close_history)
qed

lemma run_history:
  "subseq (history (run f evs s)) (history s) \<and> errStream (run f evs s) = errStream s"
proof (induction evs arbitrary: s)
  case Nil
  then show ?case by (simp add: run_def)
next
  case (Cons ev evs)
  have "subseq (history (run f evs (step f ev s))) (history (step f ev s))"
    using Cons.IH by blast
  moreover have "subseq (history (step f ev s)) (history s)"
    using step_history by blast
  ultimately have "subseq (history (run f (ev # evs) s)) (history s)"
    using subseq_order.trans by (auto simp: run_def)
  moreover have "errStream (run f (ev # evs) s) = errStream s"
    using Cons.IH [of "step f ev s"] step_history [of f ev s] by (simp add: run_def)
  ultimately show ?case by blast
qed

lemma run_received_subseq:
  assumes "watcher s = InReadAll" and "received (trace s) = []"
  shows "subseq (received (trace (run f evs s))) (watchErr_sends (errStream s))"
proof -
  have "history s = watchErr_sends (errStream s)"
    using assms by (simp add: history_def pending_def)
  then have "subseq (history (run f evs s)) (watchErr_sends (errStream s))"
    using run_history [of f evs s] by simp
  moreover have "subseq (received (trace (run f evs s))) (history (run f evs s))"
    by (simp add: history_def subseq_same_prefix)
  ultimately show ?thesis
    using subseq_order.trans by blast
qed

lemma distinct_watchErr_sends: "distinct (watchErr_sends r)"
  by (cases r) (auto simp: watchErr_sends_def split: option.splits)

lemma length_watchErr_sends:
  "length (watchErr_sends r) =
     (if snd r \<noteq> None then 1 else 0) + (if fst r \<noteq> [] then 1 else 0)"
  by (cases r) (auto simp: watchErr_sends_def split: option.splits)


lemma subseq_set_mono: "subseq xs ys \<Longrightarrow> set xs \<subseteq> set ys"
  by (induction rule: list_emb.induct) auto

lemma subseq_distinct: "subseq xs ys \<Longrightarrow> distinct ys \<Longrightarrow> distinct xs"
  by (induction rule: list_emb.induct) (use subseq_set_mono in auto)

text \<open>Once the context is cancelled and the watcher is not parked, nothing is handed over.\<close>

lemma step_cancelled:
  assumes "ctx_done s" and "errch_offer s = None"
  shows "ctx_done (step f ev s) \<and> errch_offer (step f ev s) = None
    \<and> received (trace (step f ev s)) = received (trace s)"
proof -
  have e: "errch_tryrecv s = (None, s)"
    using assms errch_tryrecv_cases [of s] by auto
  show ?thesis
  proof (cases ev)
    case EvReadAllReturns
    with assms show ?thesis
      by (auto simp: ReadAll_returns_def errch_offer_def split: watcher.splits)
  next
    case EvWatchErr
    with assms show ?thesis
      by (auto simp: watchErr_def errch_offer_def split: watcher.splits option.splits)
  next
    case EvCancel
    with assms show ?thesis
      by (auto simp: ctx_cancel_def errch_offer_def split: watcher.splits)
  next
    case (EvRead b dr)
    with assms show ?thesis
      by (simp add: Read_def e stream_Read_def errch_offer_def received_append)
  next
    case (EvWrite b dw)
    with assms show ?thesis
      by (simp add: Write_def e stream_Write_def errch_offer_def received_append)
  next
    case (EvClose dc fc)
    with assms show ?thesis
      by (simp add: Close_def e stream_Close_def conn_RemoveStreams_def conn_Close_def
          Let_def errch_offer_def received_append)
  qed
qed

lemma run_cancelled:
  "ctx_done s \<Longrightarrow> errch_offer s = None \<Longrightarrow>
     received (trace (run f evs s)) = received (trace s)"
proof (induction evs arbitrary: s)
  case Nil
  then show ?case by (simp add: run_def)
next
  case (Cons ev evs)
  from step_cancelled [OF Cons.prems, of f ev]
  have "received (trace (run f evs (step f ev s))) = received (trace s)"
    using Cons.IH [of "step f ev s"] by simp
  then show ?case by (simp add: run_def)
qed

lemma ctx_cancel_quiet:
  "ctx_done (ctx_cancel s) \<and> errch_offer (ctx_cancel s) = None
   \<and> trace (ctx_cancel s) = trace s"
  by (auto simp: ctx_cancel_def errch_offer_def split: watcher.splits)

text \<open>
  C4, as stated, fails.  The error stream broke after the remote side had written
  \<^verbatim>\<open>oops\<close> on it, so \<^verbatim>\<open>io.ReadAll\<close> returns both the bytes and an error.  The watcher
  sends the wrapped I/O error, a \<^verbatim>\<open>Read\<close> receives it, the watcher goes on to its second
  test and sends the content error, and a \<^verbatim>\<open>Write\<close> receives that one: two deliveries.
\<close>

theorem watcher_delivers_twice:
  "received (trace (run conn0
      [EvReadAllReturns, EvWatchErr, EvRead 4 (0, None), EvWatchErr, EvWrite ''x'' (0, None)]
      broken)) =
    [Some (Wrap ''error while reading error stream: '' (New ''connection reset'')),
     Some (New ''error returned from apiserver: oops'')]"
  by (simp add: run_def broken_def spawned_def ReadAll_returns_def watchErr_def Read_def
      Write_def errch_tryrecv_def)

text \<open>
  C4, amended.  From the start of the watcher, in every run: when the error stream ends
  cleanly with no content, nothing is ever delivered; the watcher makes one attempt for an
  I/O failure and one for non-empty content, so it delivers at most one error unless
  \<^verbatim>\<open>io.ReadAll\<close> returned both, and then at most two; and once the context is cancelled
  nothing more is delivered.
\<close>

theorem watcher_deliveries_bounded:
  assumes "watcher s = InReadAll" and "received (trace s) = []"
  shows "(errStream s = ([], None) \<longrightarrow> received (trace (run f evs s)) = [])
    \<and> length (received (trace (run f evs s))) \<le>
        (if snd (errStream s) \<noteq> None then 1 else 0) + (if fst (errStream s) \<noteq> [] then 1 else 0)
    \<and> received (trace (run f evs' (ctx_cancel (run f evs s)))) = received (trace (run f evs s))"
proof -
  have sub: "subseq (received (trace (run f evs s))) (watchErr_sends (errStream s))"
    using assms by (rule run_received_subseq)
  then have "length (received (trace (run f evs s))) \<le> length (watchErr_sends (errStream s))"
    by (rule list_emb_length)
  then have len: "length (received (trace (run f evs s))) \<le>
      (if snd (errStream s) \<noteq> None then 1 else 0) + (if fst (errStream s) \<noteq> [] then 1 else 0)"
    by (simp only: length_watchErr_sends)
  have "received (trace (run f evs s)) = []" if "errStream s = ([], None)"
    using len that by simp
  moreover have "received (trace (run f evs' (ctx_cancel (run f evs s))))
      = received (trace (run f evs s))"
    using run_cancelled [of "ctx_cancel (run f evs s)" f evs'] ctx_cancel_quiet [of "run f evs s"]
    by simp
  ultimately show ?thesis using len by blast
qed

theorem watcher_deliveries_bounded_witness:
  "watcher (spawned ([], None)) = InReadAll \<and> received (trace (spawned ([], None))) = []
   \<and> errStream (spawned ([], None)) = ([], None)
   \<and> received (trace (run conn0 [EvReadAllReturns, EvWatchErr, EvWatchErr, EvRead 4 (0, None)]
        (spawned ([], None)))) = []
   \<and> watcher broken = InReadAll \<and> received (trace broken) = []
   \<and> length (received (trace (run conn0
        [EvReadAllReturns, EvWatchErr, EvRead 4 (0, None), EvWatchErr, EvWrite ''x'' (0, None)]
        broken))) \<le> 2"
proof -
  have a: "watcher (spawned ([], None)) = InReadAll" "received (trace (spawned ([], None))) = []"
    "errStream (spawned ([], None)) = ([], None)"
    by (simp_all add: spawned_def)
  have b: "watcher broken = InReadAll" "received (trace broken) = []"
    "errStream broken = (''oops'', Some (New ''connection reset''))"
    by (simp_all add: broken_def spawned_def)
  from watcher_deliveries_bounded [OF a(1,2), of conn0
      "[EvReadAllReturns, EvWatchErr, EvWatchErr, EvRead 4 (0, None)]" "[]"]
    watcher_deliveries_bounded [OF b(1,2), of conn0
      "[EvReadAllReturns, EvWatchErr, EvRead 4 (0, None), EvWatchErr, EvWrite ''x'' (0, None)]"
      "[]"]
  show ?thesis by (simp add: a b)
qed

text \<open>
  C5, as stated, fails in its conclusion.  With the watcher parked on the wrapped I/O
  error, a \<^verbatim>\<open>Read\<close> surfaces that error; the watcher then offers the content error and
  the next \<^verbatim>\<open>Write\<close> surfaces it: two errors on one adapter.
\<close>

theorem two_errors_surfaced:
  "fst (Read conn0 4 (0, None) broken_parked) =
     (0, Some (Wrap ''error while reading error stream: '' (New ''connection reset'')))
   \<and> fst (Write conn0 ''x'' (0, None) (watchErr (snd (Read conn0 4 (0, None) broken_parked)))) =
     (0, Some (New ''error returned from apiserver: oops''))"
  by (simp add: broken_parked_def broken_def spawned_def ReadAll_returns_def watchErr_def
      Read_def Write_def errch_tryrecv_def)

lemma op_drains:
  "errch_offer (snd (Read f b dr s)) = None
   \<and> errch_offer (snd (Write f bs dw s)) = None
   \<and> errch_offer (snd (Close f dc fc s)) = None"
  using errch_tryrecv_cases [of s]
  by (auto simp: Read_def Write_def Close_def stream_Read_def stream_Write_def stream_Close_def
      conn_RemoveStreams_def conn_Close_def Let_def errch_offer_def)

text \<open>
  C5, amended.  Every \<^verbatim>\<open>Read\<close>, \<^verbatim>\<open>Write\<close> and \<^verbatim>\<open>Close\<close> leaves the channel empty,
  so the value it received is not seen by a later operation; over a whole run the values
  the operations observe are, in order and each at most once, among the errors the watcher
  sends.  These are at most two, so at most two errors are surfaced per adapter, and at
  most one unless the error stream both failed and carried content.
\<close>

theorem delivered_value_observed_once:
  assumes "watcher s = InReadAll" and "received (trace s) = []"
  shows "subseq (received (trace (run f evs s))) (watchErr_sends (errStream s))
    \<and> distinct (received (trace (run f evs s)))
    \<and> errch_offer (snd (Read f b dr s')) = None
    \<and> errch_offer (snd (Write f bs dw s')) = None
    \<and> errch_offer (snd (Close f dc fc s')) = None"
proof -
  have sub: "subseq (received (trace (run f evs s))) (watchErr_sends (errStream s))"
    using assms by (rule run_received_subseq)
  then have "distinct (received (trace (run f evs s)))"
    using distinct_watchErr_sends by (rule subseq_distinct)
  with sub op_drains [of f b dr s' bs dw dc fc] show ?thesis by simp
qed

theorem delivered_value_observed_once_witness:
  "watcher broken = InReadAll \<and> received (trace broken) = []
   \<and> subseq (received (trace (run conn0
        [EvReadAllReturns, EvWatchErr, EvRead 4 (0, None), EvRead 4 (0, None)] broken)))
      [Some (Wrap ''error while reading error stream: '' (New ''connection reset'')),
       Some (New ''error returned from apiserver: oops'')]
   \<and> errch_offer (snd (Read conn0 4 (0, None) broken_parked)) = None"
proof -
  have b: "watcher broken = InReadAll" "received (trace broken) = []"
    by (simp_all add: broken_def spawned_def)
  have c: "watchErr_sends (errStream broken) =
     [Some (Wrap ''error while reading error stream: '' (New ''connection reset'')),
       Some (New ''error returned from apiserver: oops'')]"
    by (simp add: broken_def spawned_def watchErr_sends_def)
  from delivered_value_observed_once [OF b, of conn0
      "[EvReadAllReturns, EvWatchErr, EvRead 4 (0, None), EvRead 4 (0, None)]"
      4 "(0, None)" broken_parked]
  show ?thesis using b c by simp
qed

end
